theory Spec2Isabelle
  imports Main "HOL-Library.Word"
begin

unbundle bit_operations_syntax

section \<open>Python values used by the emulator\<close>

text \<open>
  A Python \<open>bytes\<close> object is a sequence of values 0..255: a list of 8-bit words.
  Reading one element (\<open>raw[i]\<close>) gives a Python \<open>int\<close>, here \<open>uint\<close> of the word.
  Python integers are unbounded: \<open>int\<close>.
\<close>

type_synonym byte = "8 word"

type_synonym bytes = "byte list"

text \<open>
  The exceptions the modelled code raises. \<open>ApduParseError\<close> carries the reason that
  the source puts into its message.
\<close>

datatype parse_failure =
    TooShort
  | LcTooLarge int int
  | TrailingBytes nat

datatype error =
    ValueError
  | IndexError
  | AttributeError
  | RecursionError
  | ApduParseError parse_failure

text \<open>
  Python slicing never raises: a negative bound counts from the end, and both bounds are
  clamped to the length of the sequence.
\<close>

definition py_clamp :: "int \<Rightarrow> nat \<Rightarrow> nat" where
  "py_clamp i n = (if i < 0 then nat (max 0 (int n + i)) else min (nat i) n)"

definition py_slice :: "'a list \<Rightarrow> int \<Rightarrow> int \<Rightarrow> 'a list" where
  "py_slice xs lo hi =
     (let a = py_clamp lo (length xs); b = py_clamp hi (length xs)
      in take (b - a) (drop a xs))"

definition py_slice_from :: "'a list \<Rightarrow> int \<Rightarrow> 'a list" where
  "py_slice_from xs lo = drop (py_clamp lo (length xs)) xs"

definition py_slice_to :: "'a list \<Rightarrow> int \<Rightarrow> 'a list" where
  "py_slice_to xs hi = take (py_clamp hi (length xs)) xs"

section \<open>Status words (apdu/status\_words.py)\<close>

definition SW_SUCCESS :: bytes where "SW_SUCCESS = [0x90, 0x00]"

definition SW_WRONG_LENGTH :: bytes where "SW_WRONG_LENGTH = [0x67, 0x00]"

definition SW_INS_NOT_SUPPORTED :: bytes where "SW_INS_NOT_SUPPORTED = [0x6D, 0x00]"

definition SW_CLA_NOT_SUPPORTED :: bytes where "SW_CLA_NOT_SUPPORTED = [0x6E, 0x00]"

definition SW_FILE_NOT_FOUND :: bytes where "SW_FILE_NOT_FOUND = [0x6A, 0x82]"

definition SW_RECORD_NOT_FOUND :: bytes where "SW_RECORD_NOT_FOUND = [0x6A, 0x83]"

definition SW_WRONG_P1P2 :: bytes where "SW_WRONG_P1P2 = [0x6B, 0x00]"

definition SW_FUNC_NOT_SUPPORTED :: bytes where "SW_FUNC_NOT_SUPPORTED = [0x6A, 0x81]"

definition SW_COMMAND_NOT_ALLOWED :: bytes where "SW_COMMAND_NOT_ALLOWED = [0x69, 0x86]"

definition SW_COND_NOT_SATISFIED :: bytes where "SW_COND_NOT_SATISFIED = [0x69, 0x85]"

definition SW_SECURITY_STATUS_NOT_SATISFIED :: bytes where
  "SW_SECURITY_STATUS_NOT_SATISFIED = [0x69, 0x82]"


lemmas sw_defs =
  SW_SUCCESS_def SW_WRONG_LENGTH_def SW_INS_NOT_SUPPORTED_def SW_CLA_NOT_SUPPORTED_def
  SW_FILE_NOT_FOUND_def SW_RECORD_NOT_FOUND_def SW_WRONG_P1P2_def SW_FUNC_NOT_SUPPORTED_def
  SW_COMMAND_NOT_ALLOWED_def SW_COND_NOT_SATISFIED_def SW_SECURITY_STATUS_NOT_SATISFIED_def

section \<open>The APDU and its parser (apdu/parser.py)\<close>

record apdu =
  cla :: int
  ins :: int
  p1 :: int
  p2 :: int
  lc :: int
  data :: bytes
  le :: "int option"

definition p1p2 :: "apdu \<Rightarrow> int" where
  "p1p2 a = push_bit 8 (p1 a) OR p2 a"

definition has_data :: "apdu \<Rightarrow> bool" where
  "has_data a \<longleftrightarrow> lc a > 0"

definition has_le :: "apdu \<Rightarrow> bool" where
  "has_le a \<longleftrightarrow> le a \<noteq> None"

text \<open>
  \<open>parse_apdu\<close>, branch by branch. The \<open>isinstance\<close> test of the source is the type of
  the argument here. Every index read is guarded by the length tests before it.
\<close>

definition parse_apdu :: "bytes \<Rightarrow> error + apdu" where
  "parse_apdu raw =
     (if length raw < 4 then Inl (ApduParseError TooShort)
      else
        let c = uint (raw ! 0); i = uint (raw ! 1); q1 = uint (raw ! 2); q2 = uint (raw ! 3)
        in
          if length raw = 4 then
            Inr \<lparr>cla = c, ins = i, p1 = q1, p2 = q2, lc = 0, data = [], le = None\<rparr>
          else if length raw = 5 then
            Inr \<lparr>cla = c, ins = i, p1 = q1, p2 = q2, lc = 0, data = [],
                 le = Some (uint (raw ! 4))\<rparr>
          else
            let n = uint (raw ! 4); data_start = 5; data_end = data_start + n
            in
              if data_end > int (length raw) then
                Inl (ApduParseError (LcTooLarge n (int (length raw) - 5)))
              else
                let d = py_slice raw data_start data_end;
                    remaining = py_slice_from raw data_end
                in
                  if length remaining = 0 then
                    Inr \<lparr>cla = c, ins = i, p1 = q1, p2 = q2, lc = n, data = d, le = None\<rparr>
                  else if length remaining = 1 then
                    Inr \<lparr>cla = c, ins = i, p1 = q1, p2 = q2, lc = n, data = d,
                         le = Some (uint (remaining ! 0))\<rparr>
                  else Inl (ApduParseError (TrailingBytes (length remaining))))"

section \<open>The file tree (filesystem/nodes.py)\<close>

text \<open>
  The node classes as one datatype. \<open>MF\<close> is a subclass of \<open>DF\<close> that adds nothing, so
  a container carries a flag saying which of the two classes it was built as, and
  \<open>isinstance(node, DF)\<close> is \<open>is_DF\<close>. The dictionary \<open>children\<close> keeps insertion
  order, which \<open>find\<close> depends on: an association list, oldest entry first. The \<open>parent\<close>
  back-reference is read only by the path printers and is left out.
\<close>

datatype node =
    is_DF: DF (fid: int) (name: string) (is_MF: bool) (children: "(int \<times> node) list")
  | is_TransparentEF: TransparentEF (fid: int) (name: string) (content: bytes)
  | is_LinearFixedEF: LinearFixedEF (fid: int) (name: string) (record_len: int)
      (records: "bytes list")

text \<open>\<open>DF.add_child\<close>: refuses a fid that is already a key, else appends the entry.\<close>

definition add_child :: "node \<Rightarrow> node \<Rightarrow> error + node" where
  "add_child d n =
     (case d of
        DF f nm mf ch \<Rightarrow>
          (if fid n \<in> fst ` set ch then Inl ValueError
           else Inr (DF f nm mf (ch @ [(fid n, n)])))
      | _ \<Rightarrow> Inl AttributeError)"

text \<open>\<open>DF.get_child\<close>: \<open>self.children.get(fid)\<close>.\<close>

definition get_child :: "node \<Rightarrow> int \<Rightarrow> error + node option" where
  "get_child d f = (case d of DF _ _ _ ch \<Rightarrow> Inr (map_of ch f) | _ \<Rightarrow> Inl AttributeError)"

text \<open>
  \<open>DF.find\<close>. Only the container classes have the method, so calling it on a leaf raises
  \<open>AttributeError\<close>. \<open>find_loop\<close> is the \<open>for child in self.children.values()\<close> loop: it
  calls \<open>find\<close> on the children that are containers and returns at the first hit.
  The recursion follows the tree, which is finite, so this is what \<open>find\<close> returns
  whenever the interpreter lets every call through; the interpreter's bound on nested
  calls is added further down.
\<close>

function find_node :: "node \<Rightarrow> int \<Rightarrow> error + node option"
  and find_loop :: "(int \<times> node) list \<Rightarrow> int \<Rightarrow> error + node option" where
  "find_node (DF f nm mf ch) x =
     (if x = f then Inr (Some (DF f nm mf ch))
      else case map_of ch x of
             Some c \<Rightarrow> Inr (Some c)
           | None \<Rightarrow> find_loop ch x)"
| "find_node (TransparentEF f nm c) x = Inl AttributeError"
| "find_node (LinearFixedEF f nm rl rs) x = Inl AttributeError"
| "find_loop [] x = Inr None"
| "find_loop (kc # rest) x =
     (if is_DF (snd kc) then
        (case find_node (snd kc) x of
           Inl e \<Rightarrow> Inl e
         | Inr (Some hit) \<Rightarrow> Inr (Some hit)
         | Inr None \<Rightarrow> find_loop rest x)
      else find_loop rest x)"
  by pat_completeness auto
termination
  by (relation "measure (\<lambda>s. case s of
          Inl (n, _) \<Rightarrow> 2 * size n
        | Inr (ch, _) \<Rightarrow> 2 * size (DF 0 [] False ch) - 1)")
     auto

text \<open>
  \<open>TransparentEF.read_binary\<close>, with the checks in the order of the source. After them
  \<open>0 \<le> offset \<le> len(content)\<close> and \<open>offset \<le> end\<close>, and the slice cuts at the end of
  the content.
\<close>

definition read_binary :: "node \<Rightarrow> int \<Rightarrow> int \<Rightarrow> error + bytes" where
  "read_binary n offset len =
     (case n of
        TransparentEF _ _ c \<Rightarrow>
          (if offset < 0 then Inl ValueError
           else if len < 0 then Inl ValueError
           else
             let e = offset + len
             in if offset > int (length c) then Inl IndexError
                else Inr (py_slice c offset e))
      | _ \<Rightarrow> Inl AttributeError)"

text \<open>\<open>LinearFixedEF.read_record\<close>: record numbers start at 1.\<close>

definition read_record :: "node \<Rightarrow> int \<Rightarrow> error + bytes" where
  "read_record n record_number =
     (case n of
        LinearFixedEF _ _ _ rs \<Rightarrow>
          (if record_number \<le> 0 then Inl IndexError
           else
             let idx = record_number - 1
             in if idx \<ge> int (length rs) then Inl IndexError
                else Inr (rs ! nat idx))
      | _ \<Rightarrow> Inl AttributeError)"

section \<open>The card session (card/context.py)\<close>

text \<open>
  The three fields of \<open>CardContext\<close> refer to nodes of the tree. No handler changes a
  node, so a reference is modelled by the node it refers to. \<open>__post_init__\<close> replaces
  a missing current container or file by the root, so the fields always hold a node.
\<close>

record card_context =
  mf_root :: node
  current_df :: node
  current_file :: node

definition from_mf :: "node \<Rightarrow> card_context" where
  "from_mf r = \<lparr>mf_root = r, current_df = r, current_file = r\<rparr>"

definition select_node :: "card_context \<Rightarrow> node \<Rightarrow> card_context" where
  "select_node ctx n =
     (let ctx1 = ctx\<lparr>current_file := n\<rparr>
      in if is_DF n then ctx1\<lparr>current_df := n\<rparr> else ctx1)"

definition reset_to_mf :: "card_context \<Rightarrow> card_context" where
  "reset_to_mf ctx = ctx\<lparr>current_df := mf_root ctx, current_file := mf_root ctx\<rparr>"

definition find_anywhere :: "card_context \<Rightarrow> int \<Rightarrow> error + node option" where
  "find_anywhere ctx x = find_node (mf_root ctx) x"

definition find_under_current_df :: "card_context \<Rightarrow> int \<Rightarrow> error + node option" where
  "find_under_current_df ctx x = find_node (current_df ctx) x"

section \<open>The handlers (card/handlers.py)\<close>

text \<open>
  A handler reads and may change the session and returns the response bytes; an exception
  that leaves the handler is \<open>Inl\<close>. No handler changes the session before a point where
  it can raise.
\<close>

type_synonym handler = "card_context \<Rightarrow> apdu \<Rightarrow> error + (bytes \<times> card_context)"

definition handle_select :: handler where
  "handle_select ctx a =
     (if lc a = 0 \<or> length (data a) = 0 then Inr (SW_WRONG_LENGTH, ctx)
      else if length (data a) \<noteq> 2 then Inr (SW_FUNC_NOT_SUPPORTED, ctx)
      else
        let x = push_bit 8 (uint (data a ! 0)) OR uint (data a ! 1)
        in
          if x = fid (mf_root ctx) then Inr (SW_SUCCESS, reset_to_mf ctx)
          else
            (case find_under_current_df ctx x of
               Inl e \<Rightarrow> Inl e
             | Inr (Some n) \<Rightarrow> Inr (SW_SUCCESS, select_node ctx n)
             | Inr None \<Rightarrow>
                 (case find_anywhere ctx x of
                    Inl e \<Rightarrow> Inl e
                  | Inr None \<Rightarrow> Inr (SW_FILE_NOT_FOUND, ctx)
                  | Inr (Some n) \<Rightarrow> Inr (SW_SUCCESS, select_node ctx n))))"

text \<open>
  \<open>handle_read_binary\<close> catches \<open>IndexError\<close> and \<open>ValueError\<close>; \<open>ApduParseError\<close> is a
  subclass of \<open>ValueError\<close>, so the second clause catches it too.
\<close>

definition handle_read_binary :: handler where
  "handle_read_binary ctx a =
     (let current = current_file ctx
      in
        if \<not> is_TransparentEF current then Inr (SW_COMMAND_NOT_ALLOWED, ctx)
        else
          (case le a of
             None \<Rightarrow> Inr (SW_WRONG_LENGTH, ctx)
           | Some l \<Rightarrow>
               let offset = p1p2 a; len = (if l = 0 then 256 else l)
               in
                 (case read_binary current offset len of
                    Inl IndexError \<Rightarrow> Inr (SW_WRONG_P1P2, ctx)
                  | Inl ValueError \<Rightarrow> Inr (SW_WRONG_P1P2, ctx)
                  | Inl (ApduParseError _) \<Rightarrow> Inr (SW_WRONG_P1P2, ctx)
                  | Inl AttributeError \<Rightarrow> Inl AttributeError
                  | Inl RecursionError \<Rightarrow> Inl RecursionError
                  | Inr d \<Rightarrow> Inr (d @ SW_SUCCESS, ctx))))"

definition handle_read_record :: handler where
  "handle_read_record ctx a =
     (let current = current_file ctx
      in
        if \<not> is_LinearFixedEF current then Inr (SW_COMMAND_NOT_ALLOWED, ctx)
        else
          let mode = p2 a AND 0x07
          in
            if mode \<noteq> 0x04 then Inr (SW_FUNC_NOT_SUPPORTED, ctx)
            else
              let record_number = p1 a
              in
                if record_number = 0 then Inr (SW_WRONG_P1P2, ctx)
                else
                  (case read_record current record_number of
                     Inl IndexError \<Rightarrow> Inr (SW_RECORD_NOT_FOUND, ctx)
                   | Inl e \<Rightarrow> Inl e
                   | Inr record \<Rightarrow>
                       let d = (case le a of
                                  None \<Rightarrow> record
                                | Some l \<Rightarrow>
                                    py_slice_to record (if l = 0 then 256 else l))
                       in Inr (d @ SW_SUCCESS, ctx)))"

section \<open>The dispatcher (apdu/router.py)\<close>

definition INS_SELECT_FILE :: int where "INS_SELECT_FILE = 0xA4"

definition INS_READ_BINARY :: int where "INS_READ_BINARY = 0xB0"

definition INS_READ_RECORD :: int where "INS_READ_RECORD = 0xB2"

definition HANDLERS :: "int \<rightharpoonup> handler" where
  "HANDLERS =
     [INS_SELECT_FILE \<mapsto> handle_select,
      INS_READ_BINARY \<mapsto> handle_read_binary,
      INS_READ_RECORD \<mapsto> handle_read_record]"

definition dispatch :: handler where
  "dispatch ctx a =
     (case HANDLERS (ins a) of
        None \<Rightarrow> Inr (SW_INS_NOT_SUPPORTED, ctx)
      | Some h \<Rightarrow> h ctx a)"

section \<open>The interpreter's bound on nested calls\<close>











section \<open>Encoding an APDU\<close>

text \<open>
  Modelled from the spec: the repository has a decoder only, no encoder. The spec's data
  model gives the values an Apdu holds (four header fields of 8 bits, \<open>lc\<close> the count of
  the data bytes, at most 255, an optional \<open>le\<close> of 8 bits), and its round-trip property
  names the encoding: the header, then \<open>Lc\<close> and the data when there is data, then
  \<open>Le\<close> when it is present.
\<close>

definition apdu_ok :: "apdu \<Rightarrow> bool" where
  "apdu_ok a \<longleftrightarrow>
     0 \<le> cla a \<and> cla a < 256 \<and> 0 \<le> ins a \<and> ins a < 256 \<and>
     0 \<le> p1 a \<and> p1 a < 256 \<and> 0 \<le> p2 a \<and> p2 a < 256 \<and>
     lc a = int (length (data a)) \<and> lc a < 256 \<and>
     (case le a of None \<Rightarrow> True | Some l \<Rightarrow> 0 \<le> l \<and> l < 256)"

definition encode_apdu :: "apdu \<Rightarrow> bytes" where
  "encode_apdu a =
     [word_of_int (cla a), word_of_int (ins a), word_of_int (p1 a), word_of_int (p2 a)]
     @ (if has_data a then word_of_int (lc a) # data a else [])
     @ (case le a of None \<Rightarrow> [] | Some l \<Rightarrow> [word_of_int l])"

section \<open>Well-formed trees, subtrees and depth\<close>

text \<open>
  What the constructors and \<open>add_child\<close> guarantee of every tree the loader builds: each
  fid is a 16-bit value (\<open>FileNode.__post_init__\<close>), the keys of a \<open>children\<close> dictionary
  are distinct and each is the fid of its child (\<open>add_child\<close>), and the records of a
  linear fixed file all have the declared positive length
  (\<open>LinearFixedEF.__post_init__\<close>).
\<close>

function wf_node :: "node \<Rightarrow> bool"
  and wf_children :: "(int \<times> node) list \<Rightarrow> bool" where
  "wf_node (DF f nm mf ch) \<longleftrightarrow>
     0 \<le> f \<and> f \<le> 0xFFFF \<and> distinct (map fst ch) \<and> wf_children ch"
| "wf_node (TransparentEF f nm c) \<longleftrightarrow> 0 \<le> f \<and> f \<le> 0xFFFF"
| "wf_node (LinearFixedEF f nm rl rs) \<longleftrightarrow>
     0 \<le> f \<and> f \<le> 0xFFFF \<and> 0 < rl \<and> list_all (\<lambda>r. int (length r) = rl) rs"
| "wf_children [] \<longleftrightarrow> True"
| "wf_children (kc # rest) \<longleftrightarrow>
     fst kc = fid (snd kc) \<and> wf_node (snd kc) \<and> wf_children rest"
  by pat_completeness auto
termination
  by (relation "measure (\<lambda>s. case s of
          Inl n \<Rightarrow> 2 * size n
        | Inr ch \<Rightarrow> 2 * size (DF 0 [] False ch) - 1)")
     auto

text \<open>All nodes of a tree, parents before children, children in insertion order.\<close>

function subtree :: "node \<Rightarrow> node list"
  and subtree_list :: "(int \<times> node) list \<Rightarrow> node list" where
  "subtree (DF f nm mf ch) = DF f nm mf ch # subtree_list ch"
| "subtree (TransparentEF f nm c) = [TransparentEF f nm c]"
| "subtree (LinearFixedEF f nm rl rs) = [LinearFixedEF f nm rl rs]"
| "subtree_list [] = []"
| "subtree_list (kc # rest) = subtree (snd kc) @ subtree_list rest"
  by pat_completeness auto
termination
  by (relation "measure (\<lambda>s. case s of
          Inl n \<Rightarrow> 2 * size n
        | Inr ch \<Rightarrow> 2 * size (DF 0 [] False ch) - 1)")
     auto

text \<open>The nodes at a given depth below a node: depth 0 is the node itself.\<close>

fun level :: "nat \<Rightarrow> node \<Rightarrow> node list" where
  "level 0 n = [n]"
| "level (Suc d) n =
     concat (map (\<lambda>kc. level d (snd kc)) (case n of DF _ _ _ ch \<Rightarrow> ch | _ \<Rightarrow> []))"

text \<open>
  The number of containers on the longest chain of nested containers that starts at a
  node: the deepest that \<open>find\<close> can recurse from it.
\<close>

function nesting :: "node \<Rightarrow> nat"
  and nesting_list :: "(int \<times> node) list \<Rightarrow> nat" where
  "nesting (DF f nm mf ch) = Suc (nesting_list ch)"
| "nesting (TransparentEF f nm c) = 0"
| "nesting (LinearFixedEF f nm rl rs) = 0"
| "nesting_list [] = 0"
| "nesting_list (kc # rest) = max (nesting (snd kc)) (nesting_list rest)"
  by pat_completeness auto
termination
  by (relation "measure (\<lambda>s. case s of
          Inl n \<Rightarrow> 2 * size n
        | Inr ch \<Rightarrow> 2 * size (DF 0 [] False ch) - 1)")
     auto

section \<open>A small card profile\<close>

text \<open>
  A tree of the shape the loader builds, used to run the definitions. The fid \<open>6F07\<close>
  occurs twice: at depth 3 in the first branch of the root and at depth 2 in the second.
\<close>

definition ef_iccid :: node where
  "ef_iccid = TransparentEF 0x2FE2 ''EF_ICCID'' [0, 0, 0, 0, 0, 0, 0, 0, 0, 0]"

definition ef_sms :: node where
  "ef_sms = LinearFixedEF 0x6F3C ''EF_SMS'' 4 [[1, 2, 3, 4], [5, 6, 7, 8]]"

definition ef_deep :: node where
  "ef_deep = TransparentEF 0x6F07 ''EF_DEEP'' [0xDE, 0xEF]"

definition ef_imsi :: node where
  "ef_imsi = TransparentEF 0x6F07 ''EF_IMSI'' [0x08, 0x09, 0x10]"

definition ef_ad :: node where
  "ef_ad = TransparentEF 0x6FAD ''EF_AD'' [0x00, 0x00, 0x00, 0x02]"

definition df_phonebook :: node where
  "df_phonebook = DF 0x5F3A ''DF_PHONEBOOK'' False [(0x6F07, ef_deep)]"

definition df_telecom :: node where
  "df_telecom = DF 0x7F10 ''DF_TELECOM'' False [(0x6F3C, ef_sms), (0x5F3A, df_phonebook)]"

definition adf_usim :: node where
  "adf_usim = DF 0x7FFF ''ADF_USIM'' False [(0x6F07, ef_imsi), (0x6FAD, ef_ad)]"

definition mf_usim :: node where
  "mf_usim = DF 0x3F00 ''MF'' True [(0x7F10, df_telecom), (0x7FFF, adf_usim), (0x2FE2, ef_iccid)]"

lemmas profile_defs =
  mf_usim_def df_telecom_def adf_usim_def df_phonebook_def ef_imsi_def ef_deep_def ef_sms_def
  ef_iccid_def ef_ad_def



section \<open>The status of a response\<close>

text \<open>A response is optional data followed by the status word: its last two bytes.\<close>

definition status_of :: "bytes \<Rightarrow> bytes" where
  "status_of resp = drop (length resp - 2) resp"

section \<open>Python slices with non-negative bounds\<close>

lemma py_slice_nonneg:
  "0 \<le> lo \<Longrightarrow> lo \<le> hi \<Longrightarrow> py_slice xs lo hi = take (nat hi - nat lo) (drop (nat lo) xs)"
  by (auto simp: py_slice_def py_clamp_def Let_def min_def)

lemma py_slice_from_nonneg:
  "0 \<le> lo \<Longrightarrow> py_slice_from xs lo = drop (nat lo) xs"
  by (auto simp: py_slice_from_def py_clamp_def min_def)

lemma py_slice_to_nonneg:
  "0 \<le> hi \<Longrightarrow> py_slice_to xs hi = take (nat hi) xs"
  by (auto simp: py_slice_to_def py_clamp_def min_def)

section \<open>Facts about the profile\<close>

lemma profile_leaves:
  "\<not> is_DF ef_iccid" "\<not> is_DF ef_sms" "\<not> is_DF ef_imsi" "\<not> is_DF ef_deep"
  "\<not> is_DF ef_ad"
  by (simp_all add: profile_defs)

lemma is_DF_profile: "is_DF mf_usim" "is_DF adf_usim" "is_DF df_telecom"
  by (simp_all add: profile_defs)

lemma wf_profile: "wf_node mf_usim" "wf_node adf_usim" "wf_node df_telecom"
  by (simp_all add: profile_defs)

lemma fid_profile:
  "fid mf_usim = 0x3F00" "fid adf_usim = 0x7FFF" "fid ef_imsi = 0x6F07" "fid ef_ad = 0x6FAD"
  "fid ef_deep = 0x6F07"
  by (simp_all add: profile_defs)

lemma profile_distinct:
  "ef_deep \<noteq> ef_imsi" "ef_deep \<noteq> ef_sms" "ef_deep \<noteq> df_phonebook"
  "ef_deep \<noteq> df_telecom" "ef_deep \<noteq> adf_usim" "ef_deep \<noteq> ef_iccid" "ef_deep \<noteq> mf_usim"
  "ef_deep \<noteq> ef_ad"
  by (simp_all add: profile_defs)

lemma subtree_adf_usim: "subtree adf_usim = [adf_usim, ef_imsi, ef_ad]"
  by (simp add: adf_usim_def ef_imsi_def ef_ad_def)

lemma find_profile:
  "find_node df_telecom 0x6FAD = Inr None"
  "find_node df_telecom 0x1234 = Inr None"
  "find_node adf_usim 0x1234 = Inr None"
  "find_node adf_usim 0x6FAD = Inr (Some ef_ad)"
  "find_node adf_usim 0x6F07 = Inr (Some ef_imsi)"
  "find_node df_telecom 0x6F07 = Inr (Some ef_deep)"
  "find_node mf_usim 0x6F07 = Inr (Some ef_deep)"
  "find_node mf_usim 0x6FAD = Inr (Some ef_ad)"
  by (simp_all add: profile_defs)

lemma level_leaf: "\<not> is_DF n \<Longrightarrow> level (Suc d) n = []"
  by (cases n) simp_all

lemma level_DF: "level (Suc d) (DF f nm isroot ch) = concat (map (\<lambda>kc. level d (snd kc)) ch)"
  by simp

lemma level_mf:
  "level 0 mf_usim = [mf_usim]"
  "level 1 mf_usim = [df_telecom, adf_usim, ef_iccid]"
  "level 2 mf_usim = [ef_sms, df_phonebook, ef_imsi, ef_ad]"
  "level 3 mf_usim = [ef_deep]"
  by (simp_all add: eval_nat_numeral level_leaf level_DF profile_leaves
      mf_usim_def df_telecom_def adf_usim_def df_phonebook_def del: level.simps(2))

section \<open>The decoder\<close>

text \<open>
  C4. \<open>parse_apdu\<close> is decided by the total length of the buffer: fewer than 4 bytes is
  an error; 4 bytes give \<open>lc = 0\<close>, no data and no \<open>le\<close>; 5 bytes give \<open>lc = 0\<close>, no data
  and \<open>le\<close> the fifth byte; from 6 bytes on \<open>lc\<close> is the byte at offset 4 and the data
  are the next \<open>lc\<close> bytes, an error if fewer than \<open>lc\<close> bytes follow; then nothing left
  gives no \<open>le\<close>, one byte left gives \<open>le\<close> that byte, and more than one is an error.
\<close>

theorem parse_apdu_by_length:
  "(length raw < 4 \<longrightarrow> parse_apdu raw = Inl (ApduParseError TooShort))
   \<and> (length raw = 4 \<longrightarrow>
        parse_apdu raw =
          Inr \<lparr>cla = uint (raw ! 0), ins = uint (raw ! 1), p1 = uint (raw ! 2),
               p2 = uint (raw ! 3), lc = 0, data = [], le = None\<rparr>)
   \<and> (length raw = 5 \<longrightarrow>
        parse_apdu raw =
          Inr \<lparr>cla = uint (raw ! 0), ins = uint (raw ! 1), p1 = uint (raw ! 2),
               p2 = uint (raw ! 3), lc = 0, data = [], le = Some (uint (raw ! 4))\<rparr>)
   \<and> (length raw \<ge> 6 \<longrightarrow>
        (let n = unat (raw ! 4); r = length raw - 5 in
           (r < n \<longrightarrow> parse_apdu raw = Inl (ApduParseError (LcTooLarge (int n) (int r))))
         \<and> (r = n \<longrightarrow>
              parse_apdu raw =
                Inr \<lparr>cla = uint (raw ! 0), ins = uint (raw ! 1), p1 = uint (raw ! 2),
                     p2 = uint (raw ! 3), lc = int n, data = take n (drop 5 raw),
                     le = None\<rparr>)
         \<and> (r = n + 1 \<longrightarrow>
              parse_apdu raw =
                Inr \<lparr>cla = uint (raw ! 0), ins = uint (raw ! 1), p1 = uint (raw ! 2),
                     p2 = uint (raw ! 3), lc = int n, data = take n (drop 5 raw),
                     le = Some (uint (raw ! (5 + n)))\<rparr>)
         \<and> (r > n + 1 \<longrightarrow>
              parse_apdu raw = Inl (ApduParseError (TrailingBytes (r - n))))))"
proof (intro conjI impI)
  assume "length raw < 4"
  then show "parse_apdu raw = Inl (ApduParseError TooShort)"
    by (simp add: parse_apdu_def)
next
  assume "length raw = 4"
  then show "parse_apdu raw =
          Inr \<lparr>cla = uint (raw ! 0), ins = uint (raw ! 1), p1 = uint (raw ! 2),
               p2 = uint (raw ! 3), lc = 0, data = [], le = None\<rparr>"
    by (simp add: parse_apdu_def)
next
  assume "length raw = 5"
  then show "parse_apdu raw =
          Inr \<lparr>cla = uint (raw ! 0), ins = uint (raw ! 1), p1 = uint (raw ! 2),
               p2 = uint (raw ! 3), lc = 0, data = [], le = Some (uint (raw ! 4))\<rparr>"
    by (simp add: parse_apdu_def)
next
  assume len: "6 \<le> length raw"
  define n where "n = unat (raw ! 4)"
  define r where "r = length raw - 5"
  have un: "uint (raw ! 4) = int n" by (simp add: n_def)
  have lr: "length raw = r + 5" "1 \<le> r" using len by (simp_all add: r_def)
  have sl: "py_slice raw 5 (5 + int n) = take n (drop 5 raw)"
    by (simp add: py_slice_nonneg nat_add_distrib)
  have sf: "py_slice_from raw (5 + int n) = drop (5 + n) raw"
    by (simp add: py_slice_from_nonneg nat_add_distrib)
  have c1: "r < n \<longrightarrow> parse_apdu raw = Inl (ApduParseError (LcTooLarge (int n) (int r)))"
    using lr by (simp add: parse_apdu_def un Let_def)
  have c2: "r = n \<longrightarrow> parse_apdu raw =
                Inr \<lparr>cla = uint (raw ! 0), ins = uint (raw ! 1), p1 = uint (raw ! 2),
                     p2 = uint (raw ! 3), lc = int n, data = take n (drop 5 raw),
                     le = None\<rparr>"
    using lr by (simp add: parse_apdu_def un Let_def sl sf)
  have c3: "r = n + 1 \<longrightarrow> parse_apdu raw =
                Inr \<lparr>cla = uint (raw ! 0), ins = uint (raw ! 1), p1 = uint (raw ! 2),
                     p2 = uint (raw ! 3), lc = int n, data = take n (drop 5 raw),
                     le = Some (uint (raw ! (5 + n)))\<rparr>"
    using lr by (simp add: parse_apdu_def un Let_def sl sf)
  have c4: "r > n + 1 \<longrightarrow> parse_apdu raw = Inl (ApduParseError (TrailingBytes (r - n)))"
    using lr by (auto simp add: parse_apdu_def un Let_def sl sf)
  show "let n = unat (raw ! 4); r = length raw - 5 in
           (r < n \<longrightarrow> parse_apdu raw = Inl (ApduParseError (LcTooLarge (int n) (int r))))
         \<and> (r = n \<longrightarrow>
              parse_apdu raw =
                Inr \<lparr>cla = uint (raw ! 0), ins = uint (raw ! 1), p1 = uint (raw ! 2),
                     p2 = uint (raw ! 3), lc = int n, data = take n (drop 5 raw),
                     le = None\<rparr>)
         \<and> (r = n + 1 \<longrightarrow>
              parse_apdu raw =
                Inr \<lparr>cla = uint (raw ! 0), ins = uint (raw ! 1), p1 = uint (raw ! 2),
                     p2 = uint (raw ! 3), lc = int n, data = take n (drop 5 raw),
                     le = Some (uint (raw ! (5 + n)))\<rparr>)
         \<and> (r > n + 1 \<longrightarrow>
              parse_apdu raw = Inl (ApduParseError (TrailingBytes (r - n))))"
    unfolding Let_def n_def [symmetric] r_def [symmetric]
    using c1 c2 c3 c4 by blast
qed

theorem parse_apdu_by_length_witness:
  "length [0x00, 0xA4 :: byte] < 4
   \<and> parse_apdu [0x00, 0xA4] = Inl (ApduParseError TooShort)
   \<and> length [0x00, 0xA4, 0x00, 0x0C :: byte] = 4
   \<and> parse_apdu [0x00, 0xA4, 0x00, 0x0C]
       = Inr \<lparr>cla = 0, ins = 0xA4, p1 = 0, p2 = 0x0C, lc = 0, data = [], le = None\<rparr>
   \<and> length [0x00, 0xB0, 0x00, 0x00, 0x0A :: byte] = 5
   \<and> parse_apdu [0x00, 0xB0, 0x00, 0x00, 0x0A]
       = Inr \<lparr>cla = 0, ins = 0xB0, p1 = 0, p2 = 0, lc = 0, data = [], le = Some 0x0A\<rparr>
   \<and> 6 \<le> length [0x00, 0xA4, 0x00, 0x0C, 0x02, 0x3F, 0x00 :: byte]
   \<and> parse_apdu [0x00, 0xA4, 0x00, 0x0C, 0x02, 0x3F, 0x00]
       = Inr \<lparr>cla = 0, ins = 0xA4, p1 = 0, p2 = 0x0C, lc = 2, data = [0x3F, 0x00],
              le = None\<rparr>
   \<and> parse_apdu [0x00, 0xA4, 0x00, 0x0C, 0x02, 0x3F, 0x00, 0x10]
       = Inr \<lparr>cla = 0, ins = 0xA4, p1 = 0, p2 = 0x0C, lc = 2, data = [0x3F, 0x00],
              le = Some 0x10\<rparr>
   \<and> parse_apdu [0x00, 0xA4, 0x00, 0x0C, 0x03, 0x3F, 0x00]
       = Inl (ApduParseError (LcTooLarge 3 2))
   \<and> parse_apdu [0x00, 0xA4, 0x00, 0x0C, 0x01, 0x3F, 0x00, 0x10]
       = Inl (ApduParseError (TrailingBytes 2))"
  using parse_apdu_by_length [of "[0x00, 0xA4]"]
    parse_apdu_by_length [of "[0x00, 0xA4, 0x00, 0x0C]"]
    parse_apdu_by_length [of "[0x00, 0xB0, 0x00, 0x00, 0x0A]"]
    parse_apdu_by_length [of "[0x00, 0xA4, 0x00, 0x0C, 0x02, 0x3F, 0x00]"]
    parse_apdu_by_length [of "[0x00, 0xA4, 0x00, 0x0C, 0x02, 0x3F, 0x00, 0x10]"]
    parse_apdu_by_length [of "[0x00, 0xA4, 0x00, 0x0C, 0x03, 0x3F, 0x00]"]
    parse_apdu_by_length [of "[0x00, 0xA4, 0x00, 0x0C, 0x01, 0x3F, 0x00, 0x10]"]
  by (simp add: Let_def)

section \<open>The round trip through the encoder\<close>

lemma uint_byte_of_int: "0 \<le> x \<Longrightarrow> x < 256 \<Longrightarrow> uint (word_of_int x :: byte) = x"
  by (simp add: uint_word_of_int)

lemma parse_encode:
  assumes ok: "apdu_ok a"
  shows "parse_apdu (encode_apdu a) = Inr a"
proof (cases "has_data a")
  case False
  with ok have l0: "lc a = 0" "data a = []"
    by (auto simp: apdu_ok_def has_data_def)
  show ?thesis
  proof (cases "le a")
    case None
    with False ok l0 show ?thesis
      by (simp add: encode_apdu_def parse_apdu_def apdu_ok_def uint_byte_of_int)
  next
    case (Some l)
    with False ok l0 show ?thesis
      by (simp add: encode_apdu_def parse_apdu_def apdu_ok_def uint_byte_of_int)
  qed
next
  case True
  with ok have l1: "lc a = int (length (data a))" "0 < length (data a)" "length (data a) < 256"
    by (auto simp: apdu_ok_def has_data_def)
  have ul: "uint (word_of_nat (length (data a)) :: byte) = int (length (data a))"
    using l1 by (simp add: uint_nat unat_of_nat)
  show ?thesis
  proof (cases "le a")
    case None
    with True ok l1 show ?thesis
      by (simp add: encode_apdu_def parse_apdu_def apdu_ok_def uint_byte_of_int ul Let_def
          py_slice_nonneg py_slice_from_nonneg nat_add_distrib)
  next
    case (Some l)
    with True ok l1 show ?thesis
      by (simp add: encode_apdu_def parse_apdu_def apdu_ok_def uint_byte_of_int ul Let_def
          py_slice_nonneg py_slice_from_nonneg nat_add_distrib)
  qed
qed

text \<open>
  C2. Every buffer that the encoding produces from an Apdu of the data model decodes, and
  encoding the decoded Apdu gives the buffer back; the decoded Apdu is the encoded one.
  The encoding writes \<open>Lc\<close> exactly when there is data.
\<close>

theorem decode_encode_roundtrip:
  "apdu_ok a \<Longrightarrow> raw = encode_apdu a \<Longrightarrow>
     parse_apdu raw = Inr a \<and>
     (case parse_apdu raw of Inl e \<Rightarrow> False | Inr a' \<Rightarrow> encode_apdu a' = raw)"
  by (simp add: parse_encode)

theorem decode_encode_roundtrip_witness:
  "apdu_ok \<lparr>cla = 0, ins = 0xA4, p1 = 0, p2 = 0x0C, lc = 2, data = [0x3F, 0x00], le = Some 0\<rparr>
   \<and> encode_apdu \<lparr>cla = 0, ins = 0xA4, p1 = 0, p2 = 0x0C, lc = 2, data = [0x3F, 0x00],
        le = Some 0\<rparr> = [0x00, 0xA4, 0x00, 0x0C, 0x02, 0x3F, 0x00, 0x00]
   \<and> parse_apdu [0x00, 0xA4, 0x00, 0x0C, 0x02, 0x3F, 0x00, 0x00]
       = Inr \<lparr>cla = 0, ins = 0xA4, p1 = 0, p2 = 0x0C, lc = 2, data = [0x3F, 0x00],
              le = Some 0\<rparr>"
proof -
  have ok: "apdu_ok \<lparr>cla = 0, ins = 0xA4, p1 = 0, p2 = 0x0C, lc = 2, data = [0x3F, 0x00],
      le = Some 0\<rparr>"
    by (simp add: apdu_ok_def)
  have enc: "[0x00, 0xA4, 0x00, 0x0C, 0x02, 0x3F, 0x00, 0x00]
      = encode_apdu \<lparr>cla = 0, ins = 0xA4, p1 = 0, p2 = 0x0C, lc = 2, data = [0x3F, 0x00],
          le = Some 0\<rparr>"
    by (simp add: encode_apdu_def has_data_def)
  from decode_encode_roundtrip [OF ok enc] ok enc show ?thesis by simp
qed

section \<open>The dispatcher, instruction by instruction\<close>

lemma dispatch_select:
  "ins a = 0xA4 \<Longrightarrow> dispatch ctx a = handle_select ctx a"
  by (simp add: dispatch_def HANDLERS_def INS_SELECT_FILE_def INS_READ_BINARY_def
      INS_READ_RECORD_def)

lemma dispatch_read_binary:
  "ins a = 0xB0 \<Longrightarrow> dispatch ctx a = handle_read_binary ctx a"
  by (simp add: dispatch_def HANDLERS_def INS_SELECT_FILE_def INS_READ_BINARY_def
      INS_READ_RECORD_def)

lemma dispatch_read_record:
  "ins a = 0xB2 \<Longrightarrow> dispatch ctx a = handle_read_record ctx a"
  by (simp add: dispatch_def HANDLERS_def INS_SELECT_FILE_def INS_READ_BINARY_def
      INS_READ_RECORD_def)

lemma dispatch_unmapped:
  "ins a \<noteq> 0xA4 \<Longrightarrow> ins a \<noteq> 0xB0 \<Longrightarrow> ins a \<noteq> 0xB2 \<Longrightarrow>
     dispatch ctx a = Inr (SW_INS_NOT_SUPPORTED, ctx)"
  by (simp add: dispatch_def HANDLERS_def INS_SELECT_FILE_def INS_READ_BINARY_def
      INS_READ_RECORD_def)

section \<open>Reading a transparent file\<close>

lemma read_binary_cases:
  "read_binary (TransparentEF f nm c) offset len =
     (if offset < 0 \<or> len < 0 then Inl ValueError
      else if offset > int (length c) then Inl IndexError
      else Inr (take (nat len) (drop (nat offset) c)))"
  by (simp add: read_binary_def Let_def py_slice_nonneg nat_add_distrib)

text \<open>
  C3, as stated, fails on the code: the claim has a negative offset fail with the
  out-of-range error (\<open>IndexError\<close>), but \<open>read_binary\<close> raises the invalid-argument
  error (\<open>ValueError\<close>) for it.
\<close>

theorem read_binary_negative_offset:
  "read_binary (TransparentEF 0x6F07 ''EF_IMSI'' [0x08, 0x09, 0x10]) (- 1) 1 = Inl ValueError
   \<and> read_binary (TransparentEF 0x6F07 ''EF_IMSI'' [0x08, 0x09, 0x10]) (- 1) 1
       \<noteq> Inl IndexError"
  by (simp add: read_binary_def)

text \<open>
  C3, amended. \<open>read_binary\<close> fails with the invalid-argument error (\<open>ValueError\<close>) if
  the offset or the length is negative, fails with the out-of-range error
  (\<open>IndexError\<close>) if both are non-negative and the offset is beyond the content length,
  and otherwise returns the bytes from \<open>offset\<close> up to \<open>offset + length\<close>, cut at the
  end of the content without an error. Dispatching READ BINARY on a transparent current
  file with the offset equal to the content length and a non-negative \<open>le\<close> answers
  \<open>90 00\<close> with no data; with the offset beyond the content length it answers \<open>6B 00\<close>.
\<close>

theorem read_binary_bounds:
  "(offset < 0 \<or> len < 0 \<longrightarrow>
      read_binary (TransparentEF f nm c) offset len = Inl ValueError)
   \<and> (0 \<le> offset \<and> 0 \<le> len \<and> int (length c) < offset \<longrightarrow>
      read_binary (TransparentEF f nm c) offset len = Inl IndexError)
   \<and> (0 \<le> offset \<and> 0 \<le> len \<and> offset \<le> int (length c) \<longrightarrow>
      read_binary (TransparentEF f nm c) offset len
        = Inr (take (nat len) (drop (nat offset) c))
      \<and> length (take (nat len) (drop (nat offset) c))
        = min (nat len) (length c - nat offset))
   \<and> (current_file ctx = TransparentEF f nm c \<and> ins a = 0xB0 \<and> le a = Some l \<longrightarrow>
        (p1p2 a = int (length c) \<and> 0 \<le> l \<longrightarrow> dispatch ctx a = Inr ([0x90, 0x00], ctx))
      \<and> (int (length c) < p1p2 a \<longrightarrow> dispatch ctx a = Inr ([0x6B, 0x00], ctx)))"
  by (auto simp: read_binary_cases dispatch_read_binary handle_read_binary_def Let_def sw_defs)

theorem read_binary_bounds_witness:
  "read_binary ef_imsi 1 5 = Inr [0x09, 0x10]
   \<and> read_binary ef_imsi 3 5 = Inr []
   \<and> read_binary ef_imsi 4 5 = Inl IndexError
   \<and> read_binary ef_imsi 1 (- 5) = Inl ValueError
   \<and> dispatch \<lparr>mf_root = mf_usim, current_df = adf_usim, current_file = ef_imsi\<rparr>
        \<lparr>cla = 0, ins = 0xB0, p1 = 0, p2 = 3, lc = 0, data = [], le = Some 5\<rparr>
       = Inr ([0x90, 0x00], \<lparr>mf_root = mf_usim, current_df = adf_usim, current_file = ef_imsi\<rparr>)
   \<and> dispatch \<lparr>mf_root = mf_usim, current_df = adf_usim, current_file = ef_imsi\<rparr>
        \<lparr>cla = 0, ins = 0xB0, p1 = 0, p2 = 4, lc = 0, data = [], le = Some 5\<rparr>
       = Inr ([0x6B, 0x00], \<lparr>mf_root = mf_usim, current_df = adf_usim, current_file = ef_imsi\<rparr>)"
proof -
  let ?ctx = "\<lparr>mf_root = mf_usim, current_df = adf_usim, current_file = ef_imsi\<rparr>"
  let ?a3 = "\<lparr>cla = 0, ins = 0xB0, p1 = 0, p2 = 3, lc = 0, data = [], le = Some 5\<rparr>"
  let ?a4 = "\<lparr>cla = 0, ins = 0xB0, p1 = 0, p2 = 4, lc = 0, data = [], le = Some 5\<rparr>"
  have cf: "current_file ?ctx = TransparentEF 0x6F07 ''EF_IMSI'' [0x08, 0x09, 0x10]"
    by (simp add: ef_imsi_def)
  have p3: "p1p2 ?a3 = 3" and p4: "p1p2 ?a4 = 4"
    by (simp_all add: p1p2_def)
  have r1: "read_binary ef_imsi 1 5 = Inr [0x09, 0x10]"
    using read_binary_bounds [of 1 5 "0x6F07" "''EF_IMSI''" "[0x08, 0x09, 0x10]"]
    by (simp add: ef_imsi_def)
  have r2: "read_binary ef_imsi 3 5 = Inr []"
    using read_binary_bounds [of 3 5 "0x6F07" "''EF_IMSI''" "[0x08, 0x09, 0x10]"]
    by (simp add: ef_imsi_def)
  have r3: "read_binary ef_imsi 4 5 = Inl IndexError"
    using read_binary_bounds [of 4 5 "0x6F07" "''EF_IMSI''" "[0x08, 0x09, 0x10]"]
    by (simp add: ef_imsi_def)
  have r4: "read_binary ef_imsi 1 (- 5) = Inl ValueError"
    using read_binary_bounds [of 1 "- 5" "0x6F07" "''EF_IMSI''" "[0x08, 0x09, 0x10]"]
    by (simp add: ef_imsi_def)
  have d3: "dispatch ?ctx ?a3 = Inr ([0x90, 0x00], ?ctx)"
    using read_binary_bounds [of 0 0 "0x6F07" "''EF_IMSI''" "[0x08, 0x09, 0x10]" ?ctx ?a3 5]
      cf p3
    by (simp add: sw_defs)
  have d4: "dispatch ?ctx ?a4 = Inr ([0x6B, 0x00], ?ctx)"
    using read_binary_bounds [of 0 0 "0x6F07" "''EF_IMSI''" "[0x08, 0x09, 0x10]" ?ctx ?a4 5]
      cf p4
    by (simp add: sw_defs)
  from r1 r2 r3 r4 d3 d4 show ?thesis by blast
qed

section \<open>Reading a record\<close>

lemma read_record_cases:
  "read_record (LinearFixedEF f nm rl rs) k =
     (if k \<le> 0 \<or> int (length rs) < k then Inl IndexError else Inr (rs ! nat (k - 1)))"
  by (auto simp: read_record_def Let_def)

text \<open>
  C8. With a linear fixed file current and absolute mode (\<open>p2 & 7 = 4\<close>), READ RECORD
  fails for record number 0 with \<open>6B 00\<close> and for record number \<open>record_count + 1\<close>
  with \<open>6A 83\<close>, two different statuses; \<open>read_record\<close> itself raises for both.
\<close>

theorem read_record_bounds_statuses:
  "current_file ctx = LinearFixedEF f nm rl rs \<Longrightarrow> ins a = 0xB2 \<Longrightarrow> p2 a AND 0x07 = 0x04 \<Longrightarrow>
     (p1 a = 0 \<longrightarrow> dispatch ctx a = Inr (SW_WRONG_P1P2, ctx))
   \<and> (p1 a = int (length rs) + 1 \<longrightarrow> dispatch ctx a = Inr (SW_RECORD_NOT_FOUND, ctx))
   \<and> SW_WRONG_P1P2 = [0x6B, 0x00] \<and> SW_RECORD_NOT_FOUND = [0x6A, 0x83]
   \<and> SW_WRONG_P1P2 \<noteq> SW_RECORD_NOT_FOUND
   \<and> read_record (current_file ctx) 0 = Inl IndexError
   \<and> read_record (current_file ctx) (int (length rs) + 1) = Inl IndexError"
  by (auto simp: read_record_cases dispatch_read_record handle_read_record_def Let_def sw_defs)

theorem read_record_bounds_statuses_witness:
  "current_file \<lparr>mf_root = mf_usim, current_df = df_telecom, current_file = ef_sms\<rparr>
     = LinearFixedEF 0x6F3C ''EF_SMS'' 4 [[1, 2, 3, 4], [5, 6, 7, 8]]
   \<and> (0x04 :: int) AND 0x07 = 0x04
   \<and> dispatch \<lparr>mf_root = mf_usim, current_df = df_telecom, current_file = ef_sms\<rparr>
        \<lparr>cla = 0, ins = 0xB2, p1 = 0, p2 = 0x04, lc = 0, data = [], le = None\<rparr>
       = Inr ([0x6B, 0x00], \<lparr>mf_root = mf_usim, current_df = df_telecom, current_file = ef_sms\<rparr>)
   \<and> dispatch \<lparr>mf_root = mf_usim, current_df = df_telecom, current_file = ef_sms\<rparr>
        \<lparr>cla = 0, ins = 0xB2, p1 = 3, p2 = 0x04, lc = 0, data = [], le = None\<rparr>
       = Inr ([0x6A, 0x83], \<lparr>mf_root = mf_usim, current_df = df_telecom, current_file = ef_sms\<rparr>)"
proof -
  let ?ctx = "\<lparr>mf_root = mf_usim, current_df = df_telecom, current_file = ef_sms\<rparr>"
  let ?a0 = "\<lparr>cla = 0, ins = 0xB2, p1 = 0, p2 = 0x04, lc = 0, data = [], le = None\<rparr>"
  let ?a3 = "\<lparr>cla = 0, ins = 0xB2, p1 = 3, p2 = 0x04, lc = 0, data = [], le = None\<rparr>"
  have cf: "current_file ?ctx = LinearFixedEF 0x6F3C ''EF_SMS'' 4 [[1, 2, 3, 4], [5, 6, 7, 8]]"
    by (simp add: ef_sms_def)
  have md: "(0x04 :: int) AND 0x07 = 0x04" by simp
  have i0: "ins ?a0 = 0xB2" and m0: "p2 ?a0 AND 0x07 = 0x04" by simp_all
  have i3: "ins ?a3 = 0xB2" and m3: "p2 ?a3 AND 0x07 = 0x04" by simp_all
  have d0: "dispatch ?ctx ?a0 = Inr ([0x6B, 0x00], ?ctx)"
    using read_record_bounds_statuses [OF cf i0 m0] by simp
  have d3: "dispatch ?ctx ?a3 = Inr ([0x6A, 0x83], ?ctx)"
    using read_record_bounds_statuses [OF cf i3 m3] by simp
  from cf md d0 d3 show ?thesis by blast
qed

section \<open>Searching the tree\<close>

lemma find_total:
  "is_DF n \<Longrightarrow> \<exists>r. find_node n x = Inr r"
  "\<exists>r. find_loop ch x = Inr r"
proof (induction n x and ch x rule: find_node_find_loop.induct)
  case (1 f nm mf ch x)
  then show ?case by (auto split: option.splits)
next
  case (5 kc rest x)
  then show ?case by (auto split: option.splits sum.splits)
qed simp_all

lemma find_loop_skips_leaves:
  "find_loop ch x = find_loop (filter (\<lambda>kc. is_DF (snd kc)) ch) x"
  by (induction ch) (auto split: sum.splits option.splits)

lemma find_loop_first_hit:
  "is_DF d \<Longrightarrow> find_node d x = Inr (Some h) \<Longrightarrow>
   \<forall>kc \<in> set pre. is_DF (snd kc) \<longrightarrow> find_node (snd kc) x = Inr None \<Longrightarrow>
   find_loop (pre @ (k, d) # post) x = Inr (Some h)"
  by (induction pre) auto

lemma find_loop_no_hit:
  "\<forall>kc \<in> set ch. is_DF (snd kc) \<longrightarrow> find_node (snd kc) x = Inr None \<Longrightarrow>
   find_loop ch x = Inr None"
  by (induction ch) auto

lemma wf_children_key: "wf_children ch \<Longrightarrow> (k, c) \<in> set ch \<Longrightarrow> fid c = k \<and> wf_node c"
  by (induction ch) auto

lemma subtree_self: "n \<in> set (subtree n)"
  by (cases n) simp_all

lemma subtree_list_member: "(k, c) \<in> set ch \<Longrightarrow> set (subtree c) \<subseteq> set (subtree_list ch)"
  by (induction ch) auto

lemma leaf_subtree: "\<not> is_DF n \<Longrightarrow> subtree n = [n]"
  by (cases n) simp_all

lemma find_sound:
  "find_node n x = Inr (Some m) \<Longrightarrow> wf_node n \<Longrightarrow> fid m = x \<and> m \<in> set (subtree n)"
  "find_loop ch x = Inr (Some m) \<Longrightarrow> wf_children ch \<Longrightarrow>
     fid m = x \<and> m \<in> set (subtree_list ch)"
proof (induction n x and ch x rule: find_node_find_loop.induct)
  case (1 f nm mf ch x)
  show ?case
  proof (cases "x = f")
    case True
    with "1.prems" show ?thesis by auto
  next
    case nf: False
    show ?thesis
    proof (cases "map_of ch x")
      case None
      with nf "1.prems" "1.IH" show ?thesis by auto
    next
      case (Some c)
      then have mem: "(x, c) \<in> set ch" by (rule map_of_SomeD)
      with "1.prems" have "fid c = x" using wf_children_key by auto
      moreover have "c \<in> set (subtree_list ch)"
        using subtree_list_member [OF mem] subtree_self by auto
      ultimately show ?thesis using nf Some "1.prems" by auto
    qed
  qed
next
  case (5 kc rest x)
  then show ?case by (auto split: if_splits sum.splits option.splits)
qed simp_all

lemma find_complete:
  "is_DF n \<Longrightarrow> wf_node n \<Longrightarrow> x \<in> fid ` set (subtree n) \<Longrightarrow> \<exists>m. find_node n x = Inr (Some m)"
  "wf_children ch \<Longrightarrow> map_of ch x = None \<Longrightarrow> x \<in> fid ` set (subtree_list ch) \<Longrightarrow>
     \<exists>m. find_loop ch x = Inr (Some m)"
proof (induction n x and ch x rule: find_node_find_loop.induct)
  case (1 f nm mf ch x)
  show ?case
  proof (cases "x = f")
    case True
    then show ?thesis by simp
  next
    case nf: False
    show ?thesis
    proof (cases "map_of ch x")
      case None
      with nf "1.prems" "1.IH" show ?thesis by auto
    next
      case (Some c)
      with nf show ?thesis by simp
    qed
  qed
next
  case (5 kc rest x)
  from "5.prems" have wf: "fst kc = fid (snd kc)" "wf_node (snd kc)" "wf_children rest"
    and nk: "x \<noteq> fst kc" and mr: "map_of rest x = None"
    by (auto split: if_splits)
  show ?case
  proof (cases "is_DF (snd kc)")
    case True
    from find_total(1) [OF True] obtain r where r: "find_node (snd kc) x = Inr r" by blast
    show ?thesis
    proof (cases r)
      case (Some h)
      with True r show ?thesis by simp
    next
      case None
      with r have rn: "find_node (snd kc) x = Inr None" by simp
      have "x \<notin> fid ` set (subtree (snd kc))"
        using "5.IH"(1) [OF True True wf(2)] rn by auto
      with "5.prems"(3) have "x \<in> fid ` set (subtree_list rest)" by auto
      from "5.IH"(2) [OF True rn refl wf(3) mr this] True rn show ?thesis by simp
    qed
  next
    case False
    with "5.prems"(3) nk wf(1) have "x \<in> fid ` set (subtree_list rest)"
      by (auto simp: leaf_subtree)
    from "5.IH"(3) [OF False wf(3) mr this] False show ?thesis by simp
  qed
qed simp_all

text \<open>
  C1, as stated, fails on the code: a shallow match does not always win. In the profile
  the fid \<open>6F07\<close> has a match at depth 2 in the second branch of the root, and \<open>find\<close>
  returns the match at depth 3 in the first branch.
\<close>

theorem find_returns_deeper_match:
  "wf_node mf_usim
   \<and> find_node mf_usim 0x6F07 = Inr (Some ef_deep)
   \<and> ef_deep \<in> set (level 3 mf_usim) \<and> ef_deep \<notin> set (level 0 mf_usim @ level 1 mf_usim @ level 2 mf_usim)
   \<and> ef_imsi \<in> set (level 2 mf_usim) \<and> fid ef_imsi = 0x6F07 \<and> fid ef_deep = 0x6F07"
proof -
  have "fid ef_imsi = 0x6F07" "fid ef_deep = 0x6F07"
    by (simp_all add: ef_imsi_def ef_deep_def)
  with wf_profile find_profile profile_distinct show ?thesis
    unfolding level_mf by simp
qed

text \<open>
  C1, amended. \<open>find\<close> on a container answers in this order: the container itself if
  the fid is its own; else the direct child stored under the fid; else the first hit of
  \<open>find\<close> on the children that are containers, in insertion order, leaf children being
  skipped; else nothing. So a match at the container or among its direct children wins
  over any deeper one, and among the container children the first-inserted one whose
  search hits wins, at whatever depth its hit lies.
\<close>

theorem find_order:
  "(x = f \<longrightarrow> find_node (DF f nm r ch) x = Inr (Some (DF f nm r ch)))
   \<and> (x \<noteq> f \<and> map_of ch x = Some c \<longrightarrow> find_node (DF f nm r ch) x = Inr (Some c))
   \<and> (x \<noteq> f \<and> map_of ch x = None \<longrightarrow>
        find_node (DF f nm r ch) x = find_loop (filter (\<lambda>kc. is_DF (snd kc)) ch) x)
   \<and> (x \<noteq> f \<and> map_of ch x = None \<and> ch = pre @ (k, d) # post \<and> is_DF d
        \<and> find_node d x = Inr (Some h)
        \<and> (\<forall>kc \<in> set pre. is_DF (snd kc) \<longrightarrow> find_node (snd kc) x = Inr None) \<longrightarrow>
        find_node (DF f nm r ch) x = Inr (Some h))
   \<and> (x \<noteq> f \<and> map_of ch x = None
        \<and> (\<forall>kc \<in> set ch. is_DF (snd kc) \<longrightarrow> find_node (snd kc) x = Inr None) \<longrightarrow>
        find_node (DF f nm r ch) x = Inr None)"
proof (intro conjI impI)
  show "find_node (DF f nm r ch) x = Inr (Some (DF f nm r ch))" if "x = f"
    using that by simp
  show "find_node (DF f nm r ch) x = Inr (Some c)" if "x \<noteq> f \<and> map_of ch x = Some c"
    using that by simp
  show "find_node (DF f nm r ch) x = find_loop (filter (\<lambda>kc. is_DF (snd kc)) ch) x"
    if "x \<noteq> f \<and> map_of ch x = None"
    using that find_loop_skips_leaves [of ch x] by simp
  show "find_node (DF f nm r ch) x = Inr (Some h)"
    if "x \<noteq> f \<and> map_of ch x = None \<and> ch = pre @ (k, d) # post \<and> is_DF d
        \<and> find_node d x = Inr (Some h)
        \<and> (\<forall>kc \<in> set pre. is_DF (snd kc) \<longrightarrow> find_node (snd kc) x = Inr None)"
  proof -
    from that have nf: "x \<noteq> f" and ml: "map_of ch x = None"
      and ch: "ch = pre @ (k, d) # post" and d: "is_DF d" "find_node d x = Inr (Some h)"
      and pre: "\<forall>kc \<in> set pre. is_DF (snd kc) \<longrightarrow> find_node (snd kc) x = Inr None"
      by blast+
    have "find_loop ch x = Inr (Some h)"
      unfolding ch by (rule find_loop_first_hit [OF d pre])
    with nf ml show ?thesis by simp
  qed
  show "find_node (DF f nm r ch) x = Inr None"
    if "x \<noteq> f \<and> map_of ch x = None
        \<and> (\<forall>kc \<in> set ch. is_DF (snd kc) \<longrightarrow> find_node (snd kc) x = Inr None)"
  proof -
    from that have "find_loop ch x = Inr None"
      using find_loop_no_hit [of ch x] by simp
    with that show ?thesis by simp
  qed
qed

theorem find_order_witness:
  "find_node mf_usim 0x3F00 = Inr (Some mf_usim)
   \<and> find_node mf_usim 0x7FFF = Inr (Some adf_usim)
   \<and> find_node mf_usim 0x6FAD = Inr (Some ef_ad)
   \<and> find_node mf_usim 0x6F07 = Inr (Some ef_deep)
   \<and> find_node mf_usim 0x1234 = Inr None"
proof -
  let ?ch = "[(0x7F10, df_telecom), (0x7FFF, adf_usim), (0x2FE2, ef_iccid)]"
  have df: "is_DF df_telecom" "is_DF adf_usim" "\<not> is_DF ef_iccid"
    by (simp_all add: profile_defs)
  have a: "find_node mf_usim 0x3F00 = Inr (Some mf_usim)"
    using find_order [of "0x3F00" "0x3F00" "''MF''" True ?ch]
    by (simp add: mf_usim_def)
  have b: "find_node mf_usim 0x7FFF = Inr (Some adf_usim)"
    using find_order [of "0x7FFF" "0x3F00" "''MF''" True ?ch adf_usim]
    by (simp add: mf_usim_def)
  have c: "find_node mf_usim 0x6FAD = Inr (Some ef_ad)"
    using find_order [of "0x6FAD" "0x3F00" "''MF''" True ?ch _ "[(0x7F10, df_telecom)]"
        "0x7FFF" adf_usim "[(0x2FE2, ef_iccid)]" ef_ad] df find_profile
    by (simp add: mf_usim_def)
  have d: "find_node mf_usim 0x6F07 = Inr (Some ef_deep)"
    using find_order [of "0x6F07" "0x3F00" "''MF''" True ?ch _ "[]"
        "0x7F10" df_telecom "[(0x7FFF, adf_usim), (0x2FE2, ef_iccid)]" ef_deep] df find_profile
    by (simp add: mf_usim_def)
  have e: "find_node mf_usim 0x1234 = Inr None"
    using find_order [of "0x1234" "0x3F00" "''MF''" True ?ch] df find_profile
    by (simp add: mf_usim_def)
  from a b c d e show ?thesis by blast
qed

section \<open>SELECT\<close>

lemma fid_big_endian:
  "push_bit 8 (uint (b0 :: byte)) OR uint (b1 :: byte) = uint b0 * 256 + uint b1"
proof -
  have t: "take_bit 8 (uint b1) = uint b1"
    by (simp add: take_bit_int_eq_self_iff) (use uint_lt2p [of b1] in simp)
  have "push_bit 8 (uint b0) OR uint b1 = concat_bit 8 (uint b1) (uint b0)"
    by (simp add: concat_bit_def t or.commute)
  also have "\<dots> = uint b1 + push_bit 8 (uint b0)"
    by (simp add: concat_bit_eq t)
  finally show ?thesis by (simp add: push_bit_eq_mult)
qed

lemma handle_select_two_bytes:
  assumes "lc a \<noteq> 0" "data a = [b0, b1]"
  shows "handle_select ctx a =
     (let x = uint b0 * 256 + uint b1
      in if x = fid (mf_root ctx) then Inr (SW_SUCCESS, reset_to_mf ctx)
         else (case find_node (current_df ctx) x of
                 Inl e \<Rightarrow> Inl e
               | Inr (Some n) \<Rightarrow> Inr (SW_SUCCESS, select_node ctx n)
               | Inr None \<Rightarrow>
                  (case find_node (mf_root ctx) x of
                     Inl e \<Rightarrow> Inl e
                   | Inr None \<Rightarrow> Inr (SW_FILE_NOT_FOUND, ctx)
                   | Inr (Some n) \<Rightarrow> Inr (SW_SUCCESS, select_node ctx n))))"
  using assms
  by (simp add: handle_select_def Let_def fid_big_endian find_under_current_df_def
      find_anywhere_def split: sum.splits option.splits)

lemma handle_select_shape:
  "handle_select ctx a = Inr (resp, ctx') \<Longrightarrow>
     resp \<in> {SW_SUCCESS, SW_WRONG_LENGTH, SW_FUNC_NOT_SUPPORTED, SW_FILE_NOT_FOUND}"
  by (auto simp: handle_select_def Let_def split: if_splits sum.splits option.splits)

lemma handle_select_failure:
  "handle_select ctx a = Inr (resp, ctx') \<Longrightarrow> resp \<noteq> SW_SUCCESS \<Longrightarrow> ctx' = ctx"
  by (auto simp: handle_select_def Let_def split: if_splits sum.splits option.splits)


text \<open>
  C6. From any session, SELECT with two data bytes that are the root's fid, high byte
  first, sets the current container and the current file to the root and answers
  \<open>90 00\<close>.
\<close>

theorem select_root_resets:
  "ins a = 0xA4 \<Longrightarrow> lc a \<noteq> 0 \<Longrightarrow> data a = [b0, b1] \<Longrightarrow>
   uint b0 * 256 + uint b1 = fid (mf_root ctx) \<Longrightarrow>
     dispatch ctx a
       = Inr ([0x90, 0x00], ctx\<lparr>current_df := mf_root ctx, current_file := mf_root ctx\<rparr>)"
  by (simp add: dispatch_select handle_select_two_bytes reset_to_mf_def SW_SUCCESS_def)

theorem select_root_resets_witness:
  "uint (0x3F :: byte) * 256 + uint (0x00 :: byte) = fid mf_usim
   \<and> dispatch \<lparr>mf_root = mf_usim, current_df = adf_usim, current_file = ef_imsi\<rparr>
        \<lparr>cla = 0, ins = 0xA4, p1 = 0, p2 = 0x0C, lc = 2, data = [0x3F, 0x00], le = None\<rparr>
       = Inr ([0x90, 0x00],
              \<lparr>mf_root = mf_usim, current_df = mf_usim, current_file = mf_usim\<rparr>)"
proof -
  let ?ctx = "\<lparr>mf_root = mf_usim, current_df = adf_usim, current_file = ef_imsi\<rparr>"
  let ?a = "\<lparr>cla = 0, ins = 0xA4, p1 = 0, p2 = 0x0C, lc = 2, data = [0x3F, 0x00], le = None\<rparr>"
  have f: "uint (0x3F :: byte) * 256 + uint (0x00 :: byte) = fid (mf_root ?ctx)"
    by (simp add: mf_usim_def)
  have "dispatch ?ctx ?a
      = Inr ([0x90, 0x00], ?ctx\<lparr>current_df := mf_root ?ctx, current_file := mf_root ?ctx\<rparr>)"
    by (rule select_root_resets [OF _ _ _ f]) simp_all
  with f show ?thesis by simp
qed

text \<open>
  C7. For SELECT of a fid other than the root's: if the lookup under the current
  container finds a node, that node is selected, whatever the lookup from the root would
  find; the lookup from the root decides only when the relative one finds nothing. A fid
  present under a well-formed current container is always found by the relative lookup.
\<close>

theorem select_prefers_relative:
  assumes "ins a = 0xA4" and "lc a \<noteq> 0" and "data a = [b0, b1]"
    and "x = uint b0 * 256 + uint b1" and "x \<noteq> fid (mf_root ctx)"
  shows "(find_node (current_df ctx) x = Inr (Some n) \<longrightarrow>
            dispatch ctx a = Inr (SW_SUCCESS, select_node ctx n))
     \<and> (find_node (current_df ctx) x = Inr None \<longrightarrow>
            dispatch ctx a =
              (case find_node (mf_root ctx) x of
                 Inl e \<Rightarrow> Inl e
               | Inr None \<Rightarrow> Inr (SW_FILE_NOT_FOUND, ctx)
               | Inr (Some m) \<Rightarrow> Inr (SW_SUCCESS, select_node ctx m)))
     \<and> (is_DF (current_df ctx) \<and> wf_node (current_df ctx)
          \<and> x \<in> fid ` set (subtree (current_df ctx)) \<longrightarrow>
            (\<exists>m. find_node (current_df ctx) x = Inr (Some m)
               \<and> m \<in> set (subtree (current_df ctx)) \<and> fid m = x
               \<and> dispatch ctx a = Inr (SW_SUCCESS, select_node ctx m)))"
proof -
  have d: "dispatch ctx a =
      (case find_node (current_df ctx) x of
         Inl e \<Rightarrow> Inl e
       | Inr (Some n) \<Rightarrow> Inr (SW_SUCCESS, select_node ctx n)
       | Inr None \<Rightarrow>
          (case find_node (mf_root ctx) x of
             Inl e \<Rightarrow> Inl e
           | Inr None \<Rightarrow> Inr (SW_FILE_NOT_FOUND, ctx)
           | Inr (Some n) \<Rightarrow> Inr (SW_SUCCESS, select_node ctx n)))"
    using assms(1,2,3,5) unfolding assms(4)
    by (simp add: dispatch_select handle_select_two_bytes Let_def)
  have rel: "dispatch ctx a = Inr (SW_SUCCESS, select_node ctx m)"
    if "find_node (current_df ctx) x = Inr (Some m)" for m
    using that by (simp add: d)
  have glob: "find_node (current_df ctx) x = Inr None \<longrightarrow>
            dispatch ctx a =
              (case find_node (mf_root ctx) x of
                 Inl e \<Rightarrow> Inl e
               | Inr None \<Rightarrow> Inr (SW_FILE_NOT_FOUND, ctx)
               | Inr (Some m) \<Rightarrow> Inr (SW_SUCCESS, select_node ctx m))"
    by (simp add: d)
  have pres: "\<exists>m. find_node (current_df ctx) x = Inr (Some m)
               \<and> m \<in> set (subtree (current_df ctx)) \<and> fid m = x
               \<and> dispatch ctx a = Inr (SW_SUCCESS, select_node ctx m)"
    if h: "is_DF (current_df ctx) \<and> wf_node (current_df ctx)
          \<and> x \<in> fid ` set (subtree (current_df ctx))"
  proof -
    from h find_complete(1) [of "current_df ctx" x] obtain m where
      m: "find_node (current_df ctx) x = Inr (Some m)" by blast
    from find_sound(1) [OF m] h have "fid m = x \<and> m \<in> set (subtree (current_df ctx))"
      by blast
    with m rel [OF m] show ?thesis by blast
  qed
  from rel glob pres show ?thesis by blast
qed

theorem select_prefers_relative_witness:
  "find_node adf_usim 0x6F07 = Inr (Some ef_imsi)
   \<and> find_node mf_usim 0x6F07 = Inr (Some ef_deep)
   \<and> ef_imsi \<noteq> ef_deep
   \<and> dispatch \<lparr>mf_root = mf_usim, current_df = adf_usim, current_file = adf_usim\<rparr>
        \<lparr>cla = 0, ins = 0xA4, p1 = 0, p2 = 0x0C, lc = 2, data = [0x6F, 0x07], le = None\<rparr>
       = Inr ([0x90, 0x00],
              \<lparr>mf_root = mf_usim, current_df = adf_usim, current_file = ef_imsi\<rparr>)
   \<and> find_node df_telecom 0x6FAD = Inr None
   \<and> dispatch \<lparr>mf_root = mf_usim, current_df = df_telecom, current_file = ef_sms\<rparr>
        \<lparr>cla = 0, ins = 0xA4, p1 = 0, p2 = 0x0C, lc = 2, data = [0x6F, 0xAD], le = None\<rparr>
       = Inr ([0x90, 0x00],
              \<lparr>mf_root = mf_usim, current_df = df_telecom, current_file = ef_ad\<rparr>)"
proof -
  let ?c1 = "\<lparr>mf_root = mf_usim, current_df = adf_usim, current_file = adf_usim\<rparr>"
  let ?a1 = "\<lparr>cla = 0, ins = 0xA4, p1 = 0, p2 = 0x0C, lc = 2, data = [0x6F, 0x07],
      le = None\<rparr>"
  let ?c2 = "\<lparr>mf_root = mf_usim, current_df = df_telecom, current_file = ef_sms\<rparr>"
  let ?a2 = "\<lparr>cla = 0, ins = 0xA4, p1 = 0, p2 = 0x0C, lc = 2, data = [0x6F, 0xAD],
      le = None\<rparr>"
  have x1: "(0x6F07 :: int) = uint (0x6F :: byte) * 256 + uint (0x07 :: byte)" by simp
  have x2: "(0x6FAD :: int) = uint (0x6F :: byte) * 256 + uint (0xAD :: byte)" by simp
  have n1: "(0x6F07 :: int) \<noteq> fid (mf_root ?c1)" by (simp add: fid_profile)
  have n2: "(0x6FAD :: int) \<noteq> fid (mf_root ?c2)" by (simp add: fid_profile)
  have ne: "ef_imsi \<noteq> ef_deep" by (simp add: ef_imsi_def ef_deep_def)
  have nd: "\<not> is_DF ef_imsi" "\<not> is_DF ef_ad" by (simp_all add: ef_imsi_def ef_ad_def)
  have pres: "(0x6F07 :: int) \<in> fid ` set (subtree (current_df ?c1))"
    by (simp add: subtree_adf_usim fid_profile)
  have s1: "dispatch ?c1 ?a1 = Inr (SW_SUCCESS, select_node ?c1 ef_imsi)"
    using select_prefers_relative [of ?a1 "0x6F" "0x07" "0x6F07" ?c1 ef_imsi, OF _ _ _ x1 n1]
      find_profile by simp
  have s1': "\<exists>m. find_node (current_df ?c1) 0x6F07 = Inr (Some m)
      \<and> dispatch ?c1 ?a1 = Inr (SW_SUCCESS, select_node ?c1 m)"
    using select_prefers_relative [of ?a1 "0x6F" "0x07" "0x6F07" ?c1 ef_imsi, OF _ _ _ x1 n1]
      pres wf_profile is_DF_profile by auto
  have s2: "dispatch ?c2 ?a2 = Inr (SW_SUCCESS, select_node ?c2 ef_ad)"
    using select_prefers_relative [of ?a2 "0x6F" "0xAD" "0x6FAD" ?c2 ef_ad, OF _ _ _ x2 n2]
      find_profile by simp
  from s1 s2 ne find_profile nd show ?thesis
    by (simp add: select_node_def SW_SUCCESS_def)
qed

text \<open>
  C9. Whenever \<open>handle_select\<close> returns a status other than success the session is
  unchanged, and the status is one of \<open>67 00\<close> (no data), \<open>6A 81\<close> (data not of two
  bytes) and \<open>6A 82\<close> (fid absent under the current container and under the root).
\<close>

theorem select_failure_keeps_state:
  "(handle_select ctx a = Inr (resp, ctx') \<and> resp \<noteq> SW_SUCCESS \<longrightarrow>
      ctx' = ctx \<and> resp \<in> {SW_WRONG_LENGTH, SW_FUNC_NOT_SUPPORTED, SW_FILE_NOT_FOUND})
   \<and> (lc a = 0 \<or> data a = [] \<longrightarrow> handle_select ctx a = Inr ([0x67, 0x00], ctx))
   \<and> (lc a \<noteq> 0 \<and> data a \<noteq> [] \<and> length (data a) \<noteq> 2 \<longrightarrow>
        handle_select ctx a = Inr ([0x6A, 0x81], ctx))
   \<and> (lc a \<noteq> 0 \<and> data a = [b0, b1] \<and> x = uint b0 * 256 + uint b1
        \<and> is_DF (current_df ctx) \<and> wf_node (current_df ctx)
        \<and> is_DF (mf_root ctx) \<and> wf_node (mf_root ctx)
        \<and> x \<notin> fid ` set (subtree (current_df ctx))
        \<and> x \<notin> fid ` set (subtree (mf_root ctx)) \<longrightarrow>
        handle_select ctx a = Inr ([0x6A, 0x82], ctx))"
proof -
  have c1: "ctx' = ctx \<and> resp \<in> {SW_WRONG_LENGTH, SW_FUNC_NOT_SUPPORTED, SW_FILE_NOT_FOUND}"
    if h: "handle_select ctx a = Inr (resp, ctx') \<and> resp \<noteq> SW_SUCCESS"
  proof -
    from h have "ctx' = ctx" using handle_select_failure by blast
    moreover from h handle_select_shape [of ctx a resp ctx']
    have "resp \<in> {SW_WRONG_LENGTH, SW_FUNC_NOT_SUPPORTED, SW_FILE_NOT_FOUND}" by auto
    ultimately show ?thesis by blast
  qed
  have c2: "handle_select ctx a = Inr ([0x67, 0x00], ctx)" if "lc a = 0 \<or> data a = []"
    using that by (auto simp: handle_select_def SW_WRONG_LENGTH_def)
  have c3: "handle_select ctx a = Inr ([0x6A, 0x81], ctx)"
    if "lc a \<noteq> 0 \<and> data a \<noteq> [] \<and> length (data a) \<noteq> 2"
    using that by (simp add: handle_select_def SW_FUNC_NOT_SUPPORTED_def)
  have c4: "handle_select ctx a = Inr ([0x6A, 0x82], ctx)"
    if h: "lc a \<noteq> 0 \<and> data a = [b0, b1] \<and> x = uint b0 * 256 + uint b1
        \<and> is_DF (current_df ctx) \<and> wf_node (current_df ctx)
        \<and> is_DF (mf_root ctx) \<and> wf_node (mf_root ctx)
        \<and> x \<notin> fid ` set (subtree (current_df ctx))
        \<and> x \<notin> fid ` set (subtree (mf_root ctx))"
  proof -
    from h have x: "uint b0 * 256 + uint b1 = x" by simp
    from h subtree_self [of "mf_root ctx"] have nr: "x \<noteq> fid (mf_root ctx)" by blast
    from h find_total(1) [of "current_df ctx" x] obtain r where
      r: "find_node (current_df ctx) x = Inr r" by blast
    from h find_total(1) [of "mf_root ctx" x] obtain g where
      g: "find_node (mf_root ctx) x = Inr g" by blast
    have "r = None"
    proof (cases r)
      case (Some m)
      with r find_sound(1) [of "current_df ctx" x m] h show ?thesis by blast
    qed simp
    moreover have "g = None"
    proof (cases g)
      case (Some m)
      with g find_sound(1) [of "mf_root ctx" x m] h show ?thesis by blast
    qed simp
    ultimately show ?thesis
      using h r g nr
      by (simp add: handle_select_two_bytes [of a b0 b1] x SW_FILE_NOT_FOUND_def)
  qed
  from c1 c2 c3 c4 show ?thesis by blast
qed

theorem select_failure_keeps_state_witness:
  "handle_select \<lparr>mf_root = mf_usim, current_df = adf_usim, current_file = ef_imsi\<rparr>
      \<lparr>cla = 0, ins = 0xA4, p1 = 0, p2 = 0x0C, lc = 0, data = [], le = None\<rparr>
     = Inr ([0x67, 0x00], \<lparr>mf_root = mf_usim, current_df = adf_usim, current_file = ef_imsi\<rparr>)
   \<and> handle_select \<lparr>mf_root = mf_usim, current_df = adf_usim, current_file = ef_imsi\<rparr>
      \<lparr>cla = 0, ins = 0xA4, p1 = 0, p2 = 0x0C, lc = 3, data = [0x3F, 0x00, 0x7F], le = None\<rparr>
     = Inr ([0x6A, 0x81], \<lparr>mf_root = mf_usim, current_df = adf_usim, current_file = ef_imsi\<rparr>)
   \<and> handle_select \<lparr>mf_root = mf_usim, current_df = adf_usim, current_file = ef_imsi\<rparr>
      \<lparr>cla = 0, ins = 0xA4, p1 = 0, p2 = 0x0C, lc = 2, data = [0x12, 0x34], le = None\<rparr>
     = Inr ([0x6A, 0x82], \<lparr>mf_root = mf_usim, current_df = adf_usim, current_file = ef_imsi\<rparr>)
   \<and> [0x6A, 0x82] \<noteq> SW_SUCCESS"
proof -
  let ?ctx = "\<lparr>mf_root = mf_usim, current_df = adf_usim, current_file = ef_imsi\<rparr>"
  let ?a0 = "\<lparr>cla = 0, ins = 0xA4, p1 = 0, p2 = 0x0C, lc = 0, data = [], le = None\<rparr>"
  let ?a3 = "\<lparr>cla = 0, ins = 0xA4, p1 = 0, p2 = 0x0C, lc = 3, data = [0x3F, 0x00, 0x7F],
      le = None\<rparr>"
  let ?a2 = "\<lparr>cla = 0, ins = 0xA4, p1 = 0, p2 = 0x0C, lc = 2, data = [0x12, 0x34],
      le = None\<rparr>"
  have w0: "handle_select ?ctx ?a0 = Inr ([0x67, 0x00], ?ctx)"
    using select_failure_keeps_state [of ?ctx ?a0] by simp
  have w3: "handle_select ?ctx ?a3 = Inr ([0x6A, 0x81], ?ctx)"
    using select_failure_keeps_state [of ?ctx ?a3] by simp
  have sub: "(0x1234 :: int) \<notin> fid ` set (subtree adf_usim)"
    "(0x1234 :: int) \<notin> fid ` set (subtree mf_usim)"
    by (simp_all add: profile_defs)
  have w2: "handle_select ?ctx ?a2 = Inr ([0x6A, 0x82], ?ctx)"
    using select_failure_keeps_state [of ?ctx ?a2 _ _ "0x12" "0x34" "0x1234"]
      sub wf_profile is_DF_profile by simp
  have ns: "[0x6A, 0x82] \<noteq> SW_SUCCESS" by (simp add: SW_SUCCESS_def)
  have same: "?ctx = ?ctx \<and> [0x6A, 0x82] \<in> {SW_WRONG_LENGTH, SW_FUNC_NOT_SUPPORTED,
      SW_FILE_NOT_FOUND}"
    using select_failure_keeps_state [of ?ctx ?a2 "[0x6A, 0x82]" ?ctx] w2 ns by blast
  from w0 w3 w2 ns show ?thesis by blast
qed

section \<open>Every command gets a status\<close>

lemma read_binary_errors:
  "is_TransparentEF n \<Longrightarrow> read_binary n offset len = Inl e \<Longrightarrow>
     e = ValueError \<or> e = IndexError"
  by (cases n) (auto simp: read_binary_def Let_def split: if_splits)

lemma handle_read_binary_shape:
  "\<exists>d s. handle_read_binary ctx a = Inr (d @ s, ctx)
     \<and> s \<in> {SW_SUCCESS, SW_WRONG_LENGTH, SW_WRONG_P1P2, SW_COMMAND_NOT_ALLOWED}"
proof (cases "is_TransparentEF (current_file ctx)")
  case False
  then have "handle_read_binary ctx a = Inr ([] @ SW_COMMAND_NOT_ALLOWED, ctx)"
    by (simp add: handle_read_binary_def)
  then show ?thesis by blast
next
  case True
  show ?thesis
  proof (cases "le a")
    case None
    with True have "handle_read_binary ctx a = Inr ([] @ SW_WRONG_LENGTH, ctx)"
      by (simp add: handle_read_binary_def)
    then show ?thesis by blast
  next
    case (Some l)
    let ?r = "read_binary (current_file ctx) (p1p2 a) (if l = 0 then 256 else l)"
    show ?thesis
    proof (cases ?r)
      case (Inl e)
      with read_binary_errors [OF True] have "e = ValueError \<or> e = IndexError" by blast
      with Inl True Some have "handle_read_binary ctx a = Inr ([] @ SW_WRONG_P1P2, ctx)"
        by (auto simp: handle_read_binary_def Let_def)
      then show ?thesis by blast
    next
      case (Inr d)
      with True Some have "handle_read_binary ctx a = Inr (d @ SW_SUCCESS, ctx)"
        by (simp add: handle_read_binary_def Let_def)
      then show ?thesis by blast
    qed
  qed
qed

lemma read_record_errors:
  "is_LinearFixedEF n \<Longrightarrow> read_record n k = Inl e \<Longrightarrow> e = IndexError"
  by (cases n) (auto simp: read_record_def Let_def split: if_splits)

lemma handle_read_record_shape:
  "\<exists>d s. handle_read_record ctx a = Inr (d @ s, ctx)
     \<and> s \<in> {SW_SUCCESS, SW_FUNC_NOT_SUPPORTED, SW_WRONG_P1P2, SW_RECORD_NOT_FOUND,
            SW_COMMAND_NOT_ALLOWED}"
proof (cases "is_LinearFixedEF (current_file ctx)")
  case False
  then have "handle_read_record ctx a = Inr ([] @ SW_COMMAND_NOT_ALLOWED, ctx)"
    by (simp add: handle_read_record_def)
  then show ?thesis by blast
next
  case lf: True
  show ?thesis
  proof (cases "p2 a AND 0x07 = 0x04")
    case False
    with lf have "handle_read_record ctx a = Inr ([] @ SW_FUNC_NOT_SUPPORTED, ctx)"
      by (simp add: handle_read_record_def Let_def)
    then show ?thesis by blast
  next
    case mode: True
    show ?thesis
    proof (cases "p1 a = 0")
      case True
      with lf mode have "handle_read_record ctx a = Inr ([] @ SW_WRONG_P1P2, ctx)"
        by (simp add: handle_read_record_def Let_def)
      then show ?thesis by blast
    next
      case nz: False
      show ?thesis
      proof (cases "read_record (current_file ctx) (p1 a)")
        case (Inl e)
        with read_record_errors [OF lf] have "e = IndexError" by blast
        with Inl lf mode nz
        have "handle_read_record ctx a = Inr ([] @ SW_RECORD_NOT_FOUND, ctx)"
          by (simp add: handle_read_record_def Let_def)
        then show ?thesis by blast
      next
        case (Inr rec)
        with lf mode nz
        have "\<exists>d. handle_read_record ctx a = Inr (d @ SW_SUCCESS, ctx)"
          by (simp add: handle_read_record_def Let_def)
        then show ?thesis by blast
      qed
    qed
  qed
qed

lemma dispatch_shape:
  assumes "dispatch ctx a = Inr (resp, ctx')"
  shows "\<exists>d s. resp = d @ s
     \<and> s \<in> {SW_SUCCESS, SW_WRONG_LENGTH, SW_INS_NOT_SUPPORTED, SW_FILE_NOT_FOUND,
            SW_RECORD_NOT_FOUND, SW_WRONG_P1P2, SW_FUNC_NOT_SUPPORTED,
            SW_COMMAND_NOT_ALLOWED}"
proof -
  consider (sel) "ins a = 0xA4" | (rb) "ins a = 0xB0" | (rr) "ins a = 0xB2"
    | (other) "ins a \<noteq> 0xA4" "ins a \<noteq> 0xB0" "ins a \<noteq> 0xB2"
    by blast
  then show ?thesis
  proof cases
    case sel
    with assms have "handle_select ctx a = Inr (resp, ctx')"
      by (simp add: dispatch_select)
    from handle_select_shape [OF this] have
      "resp = [] @ resp \<and> resp \<in> {SW_SUCCESS, SW_WRONG_LENGTH, SW_INS_NOT_SUPPORTED,
         SW_FILE_NOT_FOUND, SW_RECORD_NOT_FOUND, SW_WRONG_P1P2, SW_FUNC_NOT_SUPPORTED,
         SW_COMMAND_NOT_ALLOWED}"
      by auto
    then show ?thesis by blast
  next
    case rb
    with assms have h: "handle_read_binary ctx a = Inr (resp, ctx')"
      by (simp add: dispatch_read_binary)
    from handle_read_binary_shape [of ctx a] h show ?thesis by auto
  next
    case rr
    with assms have h: "handle_read_record ctx a = Inr (resp, ctx')"
      by (simp add: dispatch_read_record)
    from handle_read_record_shape [of ctx a] h show ?thesis by auto
  next
    case other
    with assms have "resp = [] @ SW_INS_NOT_SUPPORTED"
      by (simp add: dispatch_unmapped)
    then show ?thesis by blast
  qed
qed


lemma status_of_append: "length s = 2 \<Longrightarrow> status_of (d @ s) = s"
  by (simp add: status_of_def)

lemma dispatch_status:
  assumes "dispatch ctx a = Inr (resp, ctx')"
  shows "2 \<le> length resp
     \<and> status_of resp \<in> {SW_SUCCESS, SW_WRONG_LENGTH, SW_INS_NOT_SUPPORTED, SW_FILE_NOT_FOUND,
            SW_RECORD_NOT_FOUND, SW_WRONG_P1P2, SW_FUNC_NOT_SUPPORTED,
            SW_COMMAND_NOT_ALLOWED}"
proof -
  from dispatch_shape [OF assms] obtain d s where r: "resp = d @ s"
    and s: "s \<in> {SW_SUCCESS, SW_WRONG_LENGTH, SW_INS_NOT_SUPPORTED, SW_FILE_NOT_FOUND,
            SW_RECORD_NOT_FOUND, SW_WRONG_P1P2, SW_FUNC_NOT_SUPPORTED,
            SW_COMMAND_NOT_ALLOWED}"
    by blast
  from s have l: "length s = 2" by (auto simp: sw_defs)
  with r s show ?thesis by (simp add: status_of_append)
qed

section \<open>The bounded functions within the bound\<close>








lemma nesting_DF_pos: "is_DF n \<Longrightarrow> 0 < nesting n"
  by (cases n) simp_all












section \<open>The class byte\<close>

lemma handlers_ignore_cla:
  "handle_select ctx (a\<lparr>cla := c\<rparr>) = handle_select ctx a"
  "handle_read_binary ctx (a\<lparr>cla := c\<rparr>) = handle_read_binary ctx a"
  "handle_read_record ctx (a\<lparr>cla := c\<rparr>) = handle_read_record ctx a"
  by (simp_all add: handle_select_def handle_read_binary_def handle_read_record_def p1p2_def
      Let_def cong: sum.case_cong option.case_cong error.case_cong if_cong)

text \<open>
  C10. Changing only \<open>cla\<close> changes neither the response nor the resulting session of
  \<open>dispatch\<close>, and no response is or ends with the class-not-supported status \<open>6E 00\<close>.
\<close>

theorem dispatch_ignores_cla:
  "dispatch ctx (a\<lparr>cla := c\<rparr>) = dispatch ctx a
   \<and> (\<forall>resp ctx'. dispatch ctx a = Inr (resp, ctx') \<longrightarrow>
         status_of resp \<noteq> SW_CLA_NOT_SUPPORTED \<and> resp \<noteq> SW_CLA_NOT_SUPPORTED)"
proof -
  have eq: "dispatch ctx (a\<lparr>cla := c\<rparr>) = dispatch ctx a"
  proof -
    consider (sel) "ins a = 0xA4" | (rb) "ins a = 0xB0" | (rr) "ins a = 0xB2"
      | (other) "ins a \<noteq> 0xA4" "ins a \<noteq> 0xB0" "ins a \<noteq> 0xB2"
      by blast
    then show ?thesis
    proof cases
      case sel
      then show ?thesis by (simp add: dispatch_select handlers_ignore_cla)
    next
      case rb
      then show ?thesis by (simp add: dispatch_read_binary handlers_ignore_cla)
    next
      case rr
      then show ?thesis by (simp add: dispatch_read_record handlers_ignore_cla)
    next
      case other
      then show ?thesis by (simp add: dispatch_unmapped)
    qed
  qed
  have "status_of resp \<noteq> SW_CLA_NOT_SUPPORTED \<and> resp \<noteq> SW_CLA_NOT_SUPPORTED"
    if r: "dispatch ctx a = Inr (resp, ctx')" for resp ctx'
  proof -
    from dispatch_status [OF r] have st: "status_of resp \<noteq> SW_CLA_NOT_SUPPORTED"
      by (auto simp: sw_defs)
    have "status_of SW_CLA_NOT_SUPPORTED = SW_CLA_NOT_SUPPORTED"
      by (simp add: status_of_def sw_defs)
    with st have "resp \<noteq> SW_CLA_NOT_SUPPORTED" by auto
    with st show ?thesis by simp
  qed
  with eq show ?thesis by blast
qed

theorem dispatch_ignores_cla_witness:
  "dispatch \<lparr>mf_root = mf_usim, current_df = adf_usim, current_file = ef_imsi\<rparr>
      \<lparr>cla = 0x80, ins = 0xB0, p1 = 0, p2 = 1, lc = 0, data = [], le = Some 0\<rparr>
   = dispatch \<lparr>mf_root = mf_usim, current_df = adf_usim, current_file = ef_imsi\<rparr>
      \<lparr>cla = 0x00, ins = 0xB0, p1 = 0, p2 = 1, lc = 0, data = [], le = Some 0\<rparr>
   \<and> dispatch \<lparr>mf_root = mf_usim, current_df = adf_usim, current_file = ef_imsi\<rparr>
      \<lparr>cla = 0x00, ins = 0xB0, p1 = 0, p2 = 1, lc = 0, data = [], le = Some 0\<rparr>
     = Inr ([0x09, 0x10, 0x90, 0x00],
            \<lparr>mf_root = mf_usim, current_df = adf_usim, current_file = ef_imsi\<rparr>)
   \<and> status_of [0x09, 0x10, 0x90, 0x00] \<noteq> SW_CLA_NOT_SUPPORTED"
proof -
  let ?ctx = "\<lparr>mf_root = mf_usim, current_df = adf_usim, current_file = ef_imsi\<rparr>"
  let ?a = "\<lparr>cla = 0x00, ins = 0xB0, p1 = 0, p2 = 1, lc = 0, data = [], le = Some 0\<rparr>"
  have d: "dispatch ?ctx ?a = Inr ([0x09, 0x10, 0x90, 0x00], ?ctx)"
    by (simp add: dispatch_read_binary handle_read_binary_def ef_imsi_def read_binary_cases
        p1p2_def SW_SUCCESS_def)
  from dispatch_ignores_cla [where ctx = ?ctx and a = ?a and c = "0x80"] d
  show ?thesis by simp
qed

end
